theory Spec2Isabelle
  imports Main "HOL-Library.AList"
begin

section \<open>Strings and dictionaries\<close>

text \<open>
  Python strings are modelled as \<open>string\<close>, a character standing for a code point
  below 256.  \<open>str.lower\<close> and \<open>str.isspace\<close> are what Python computes on these code
  points.
\<close>

definition lower_char :: "char \<Rightarrow> char" where
  "lower_char c =
     (let n = (of_char c :: nat)
      in if (65 \<le> n \<and> n \<le> 90) \<or> (192 \<le> n \<and> n \<le> 222 \<and> n \<noteq> 215)
         then char_of (n + 32) else c)"

definition lower :: "string \<Rightarrow> string" where
  "lower s = map lower_char s"

definition isspace :: "char \<Rightarrow> bool" where
  "isspace c \<longleftrightarrow>
     (let n = (of_char c :: nat)
      in (9 \<le> n \<and> n \<le> 13) \<or> (28 \<le> n \<and> n \<le> 32) \<or> n = 133 \<or> n = 160)"

text \<open>\<open>str.lstrip\<close>, \<open>str.rstrip\<close> and \<open>str.strip\<close> with no argument.\<close>

definition lstrip :: "string \<Rightarrow> string" where
  "lstrip s = dropWhile isspace s"

definition rstrip :: "string \<Rightarrow> string" where
  "rstrip s = rev (dropWhile isspace (rev s))"

definition strip :: "string \<Rightarrow> string" where
  "strip s = lstrip (rstrip s)"

text \<open>The line feed, the carriage return and the tabulator.\<close>

definition NL :: char where
  "NL = CHR 0x0A"

definition CR :: char where
  "CR = CHR 0x0D"

definition TAB :: char where
  "TAB = CHR 0x09"

text \<open>
  A Python \<open>dict\<close> keeps insertion order: it is an association list in which
  \<open>d[k] = v\<close> is \<open>AList.update k v d\<close> (in place when the key is there, appended
  otherwise), \<open>del d[k]\<close> is \<open>AList.delete k d\<close>, \<open>k in d\<close> is membership in
  \<open>map fst d\<close> and \<open>d[k]\<close> is \<open>map_of d k\<close>.
\<close>

type_synonym ('k, 'v) dict = "('k \<times> 'v) list"

definition keys :: "('k, 'v) dict \<Rightarrow> 'k list" where
  "keys d = map fst d"

text \<open>\<open>d.update(e)\<close>: every item of \<open>e\<close>, in order, is stored into \<open>d\<close>.\<close>

definition dict_update :: "('k, 'v) dict \<Rightarrow> ('k, 'v) dict \<Rightarrow> ('k, 'v) dict" where
  "dict_update d e = fold (\<lambda>(k, v). AList.update k v) e d"

section \<open>Errors\<close>

datatype error =
    NoSectionError string
  | NoOptionError string string
  | DuplicateSectionError string
  | DuplicateOptionError string string
  | MissingSectionHeaderError
  | ParsingError
  | ValueError
  | KeyError string
  | InterpolationSyntaxError
  | InterpolationMissingOptionError string
  | InterpolationDepthError
  | ResourceDoesNotExistException
  | ClientError string

section \<open>The \<open>configparser.ConfigParser\<close> class\<close>

text \<open>
  The module keeps one global \<open>CONFIG = configparser.ConfigParser()\<close>.  A parser holds
  the options of the \<open>DEFAULT\<close> section (\<open>_defaults\<close>) and the other sections
  (\<open>_sections\<close>), each a dictionary of options.  The parser is created with no
  arguments: option names go through \<open>optionxform\<close> (\<open>str.lower\<close>), values are strings,
  and values are checked and expanded by \<open>BasicInterpolation\<close>.
\<close>

record ConfigParser =
  defaults_dict :: "(string, string) dict"
  sections_dict :: "(string, (string, string) dict) dict"

definition default_section :: string where
  "default_section = ''DEFAULT''"

definition optionxform :: "string \<Rightarrow> string" where
  "optionxform optionstr = lower optionstr"

definition empty_parser :: ConfigParser where
  "empty_parser = \<lparr>defaults_dict = [], sections_dict = []\<rparr>"

subsection \<open>Interpolation\<close>

text \<open>\<open>value.replace('%%', '')\<close>: the occurrences are removed from left to right.\<close>

fun remove_escaped :: "string \<Rightarrow> string" where
  "remove_escaped (c # d # cs) =
     (if c = CHR ''%'' \<and> d = CHR ''%'' then remove_escaped cs
      else c # remove_escaped (d # cs))"
| "remove_escaped cs = cs"

text \<open>
  \<open>_KEYCRE = re.compile(r"%\(([^)]+)\)s")\<close>.  \<open>KEYCRE_match s\<close> is \<open>_KEYCRE.match(s)\<close>:
  the name in the parentheses and what follows the match, or \<open>None\<close>.
\<close>

definition KEYCRE_match :: "string \<Rightarrow> (string \<times> string) option" where
  "KEYCRE_match s =
     (case s of
        c # d # r \<Rightarrow>
          (if c = CHR ''%'' \<and> d = CHR ''('' then
             (let name = takeWhile (\<lambda>x. x \<noteq> CHR '')'') r;
                  r' = dropWhile (\<lambda>x. x \<noteq> CHR '')'') r
              in if name \<noteq> [] \<and> take 2 r' = '')s'' then Some (name, drop 2 r') else None)
           else None)
      | _ \<Rightarrow> None)"

lemma KEYCRE_match_shorter:
  "KEYCRE_match s = Some (name, r) \<Longrightarrow> length r < length s"
proof -
  assume a: "KEYCRE_match s = Some (name, r)"
  then obtain c d t where s: "s = c # d # t"
    by (cases s; cases "tl s") (auto simp: KEYCRE_match_def)
  from a s have "r = drop 2 (dropWhile (\<lambda>x. x \<noteq> CHR '')'') t)"
    by (auto simp: KEYCRE_match_def Let_def split: if_splits)
  then have "length r \<le> length t"
    using length_dropWhile_le [of "\<lambda>x. x \<noteq> CHR '')''" t] by simp
  with s show ?thesis by simp
qed

text \<open>\<open>_KEYCRE.sub('', s)\<close>: every match, found from left to right, is removed.\<close>

function KEYCRE_sub :: "string \<Rightarrow> string" where
  "KEYCRE_sub s =
     (case s of
        [] \<Rightarrow> []
      | c # cs \<Rightarrow>
          (case KEYCRE_match s of
             Some (name, r) \<Rightarrow> KEYCRE_sub r
           | None \<Rightarrow> c # KEYCRE_sub cs))"
  by pat_completeness auto
termination
  by (relation "measure length") (auto dest: KEYCRE_match_shorter)

text \<open>\<open>BasicInterpolation.before_set\<close>.\<close>

definition before_set :: "string \<Rightarrow> error + string" where
  "before_set v =
     (let tmp_value = remove_escaped v;
          tmp_value = KEYCRE_sub tmp_value
      in if CHR ''%'' \<in> set tmp_value then Inl ValueError else Inr v)"

definition MAX_INTERPOLATION_DEPTH :: nat where
  "MAX_INTERPOLATION_DEPTH = 10"

text \<open>
  \<open>BasicInterpolation._interpolate_some\<close>: \<open>accum\<close> is the text produced so far,
  \<open>vars\<close> looks an option up in the section and then in the defaults.
\<close>

function interpolate_some ::
  "(string \<Rightarrow> string option) \<Rightarrow> string \<Rightarrow> string \<Rightarrow> nat \<Rightarrow> error + string" where
  "interpolate_some vars accum rest depth =
     (if depth > MAX_INTERPOLATION_DEPTH then Inl InterpolationDepthError
      else if rest = [] then Inr accum
      else if CHR ''%'' \<notin> set rest then Inr (accum @ rest)
      else
        (let accum1 = accum @ takeWhile (\<lambda>x. x \<noteq> CHR ''%'') rest;
             rest1 = dropWhile (\<lambda>x. x \<noteq> CHR ''%'') rest;
             c = take 1 (drop 1 rest1)
         in if c = ''%'' then interpolate_some vars (accum1 @ ''%'') (drop 2 rest1) depth
            else if c = ''('' then
              (case KEYCRE_match rest1 of
                 None \<Rightarrow> Inl InterpolationSyntaxError
               | Some (name, rest2) \<Rightarrow>
                   (case vars (optionxform name) of
                      None \<Rightarrow> Inl (InterpolationMissingOptionError (optionxform name))
                    | Some v \<Rightarrow>
                        if CHR ''%'' \<in> set v then
                          (case interpolate_some vars accum1 v (depth + 1) of
                             Inl e \<Rightarrow> Inl e
                           | Inr accum2 \<Rightarrow> interpolate_some vars accum2 rest2 depth)
                        else interpolate_some vars (accum1 @ v) rest2 depth))
            else Inl InterpolationSyntaxError))"
  by pat_completeness auto


lemma dropWhile_percent_nonempty:
  "CHR ''%'' \<in> set rest \<Longrightarrow> dropWhile (\<lambda>x. x \<noteq> CHR ''%'') rest \<noteq> []"
  by (induction rest) auto

termination interpolate_some
proof (relation "measures [\<lambda>(vars, accum, rest, depth). MAX_INTERPOLATION_DEPTH + 1 - depth,
                           \<lambda>(vars, accum, rest, depth). length rest]", goal_cases)
  case 1
  then show ?case by simp
next
  case (2 vars accum rest depth accum1 rest1 c)
  have "length rest1 \<le> length rest" using 2 by (simp add: length_dropWhile_le)
  moreover have "rest1 \<noteq> []" using 2 dropWhile_percent_nonempty by simp
  ultimately show ?case by (cases rest1) auto
next
  case (3 vars accum rest depth accum1 rest1 c m name rest2 v)
  then have "depth \<le> MAX_INTERPOLATION_DEPTH" by simp
  then show ?case by (simp add: Suc_diff_le)
next
  case (4 vars accum rest depth accum1 rest1 c m name rest2 v)
  have "length rest1 \<le> length rest" using 4 by (simp add: length_dropWhile_le)
  moreover have "length rest2 < length rest1" using 4 KEYCRE_match_shorter by auto
  ultimately show ?case by simp
next
  case (5 vars accum rest depth accum1 rest1 c m name rest2 v)
  have "length rest1 \<le> length rest" using 5 by (simp add: length_dropWhile_le)
  moreover have "length rest2 < length rest1" using 5 KEYCRE_match_shorter by auto
  ultimately show ?case by simp
qed

text \<open>\<open>BasicInterpolation.before_get\<close>.\<close>

definition before_get :: "(string \<Rightarrow> string option) \<Rightarrow> string \<Rightarrow> error + string" where
  "before_get vars v = interpolate_some vars [] v 1"

subsection \<open>The methods the module calls\<close>

definition sections :: "ConfigParser \<Rightarrow> string list" where
  "sections p = keys (sections_dict p)"

definition has_section :: "ConfigParser \<Rightarrow> string \<Rightarrow> bool" where
  "has_section p section \<longleftrightarrow> section \<in> set (keys (sections_dict p))"

definition add_section :: "string \<Rightarrow> ConfigParser \<Rightarrow> error + ConfigParser" where
  "add_section section p =
     (if section = default_section then Inl ValueError
      else if section \<in> set (keys (sections_dict p)) then Inl (DuplicateSectionError section)
      else Inr (p\<lparr>sections_dict := AList.update section [] (sections_dict p)\<rparr>))"

text \<open>\<open>options\<close>: a copy of the section, updated with the defaults; its keys.\<close>

definition options :: "ConfigParser \<Rightarrow> string \<Rightarrow> error + string list" where
  "options p section =
     (case map_of (sections_dict p) section of
        None \<Rightarrow> Inl (NoSectionError section)
      | Some opts \<Rightarrow> Inr (keys (dict_update opts (defaults_dict p))))"

definition has_option :: "ConfigParser \<Rightarrow> string \<Rightarrow> string \<Rightarrow> bool" where
  "has_option p section option \<longleftrightarrow>
     (if section = [] \<or> section = default_section then
        optionxform option \<in> set (keys (defaults_dict p))
      else
        (case map_of (sections_dict p) section of
           None \<Rightarrow> False
         | Some opts \<Rightarrow>
             optionxform option \<in> set (keys opts)
             \<or> optionxform option \<in> set (keys (defaults_dict p))))"

text \<open>
  \<open>_unify_values\<close> with no \<open>vars\<close>: the chain of the section's dictionary and the
  defaults.
\<close>

definition unify_values :: "ConfigParser \<Rightarrow> string \<Rightarrow> error + (string \<Rightarrow> string option)" where
  "unify_values p section =
     (case map_of (sections_dict p) section of
        Some sectiondict \<Rightarrow>
          Inr (\<lambda>k. case map_of sectiondict k of
                      Some v \<Rightarrow> Some v
                    | None \<Rightarrow> map_of (defaults_dict p) k)
      | None \<Rightarrow>
          if section \<noteq> default_section then Inl (NoSectionError section)
          else Inr (map_of (defaults_dict p)))"

text \<open>
  \<open>get(section, option, fallback=...)\<close> with \<open>raw=False\<close>; the argument \<open>fallback\<close> is
  \<open>None\<close> when the call gives none.
\<close>

definition get :: "ConfigParser \<Rightarrow> string \<Rightarrow> string \<Rightarrow> string option \<Rightarrow> error + string" where
  "get p section option fallback =
     (case unify_values p section of
        Inl e \<Rightarrow> (case fallback of None \<Rightarrow> Inl e | Some fb \<Rightarrow> Inr fb)
      | Inr d \<Rightarrow>
          (case d (optionxform option) of
             None \<Rightarrow>
               (case fallback of
                  None \<Rightarrow> Inl (NoOptionError (optionxform option) section)
                | Some fb \<Rightarrow> Inr fb)
           | Some v \<Rightarrow> before_get d v))"

text \<open>\<open>ConfigParser.set\<close> (named \<open>set_option\<close> here).\<close>

definition set_option :: "string \<Rightarrow> string \<Rightarrow> string \<Rightarrow> ConfigParser \<Rightarrow> error + ConfigParser" where
  "set_option section option v p =
     (case (if v \<noteq> [] then before_set v else Inr v) of
        Inl e \<Rightarrow> Inl e
      | Inr v' \<Rightarrow>
          if section = [] \<or> section = default_section then
            Inr (p\<lparr>defaults_dict := AList.update (optionxform option) v' (defaults_dict p)\<rparr>)
          else
            (case map_of (sections_dict p) section of
               None \<Rightarrow> Inl (NoSectionError section)
             | Some sectdict \<Rightarrow>
                 Inr (p\<lparr>sections_dict :=
                   AList.update section (AList.update (optionxform option) v' sectdict)
                     (sections_dict p)\<rparr>)))"

text \<open>\<open>remove_option\<close> returns whether the option existed.\<close>

definition remove_option :: "string \<Rightarrow> string \<Rightarrow> ConfigParser \<Rightarrow> error + bool \<times> ConfigParser" where
  "remove_option section option p =
     (if section = [] \<or> section = default_section then
        Inr (optionxform option \<in> set (keys (defaults_dict p)),
             p\<lparr>defaults_dict := AList.delete (optionxform option) (defaults_dict p)\<rparr>)
      else
        (case map_of (sections_dict p) section of
           None \<Rightarrow> Inl (NoSectionError section)
         | Some sectdict \<Rightarrow>
             Inr (optionxform option \<in> set (keys sectdict),
                  p\<lparr>sections_dict :=
                    AList.update section (AList.delete (optionxform option) sectdict)
                      (sections_dict p)\<rparr>)))"

definition remove_section :: "string \<Rightarrow> ConfigParser \<Rightarrow> bool \<times> ConfigParser" where
  "remove_section section p =
     (section \<in> set (keys (sections_dict p)),
      p\<lparr>sections_dict := AList.delete section (sections_dict p)\<rparr>)"

text \<open>\<open>clear\<close> pops every section; the defaults stay.\<close>

definition clear :: "ConfigParser \<Rightarrow> ConfigParser" where
  "clear p = p\<lparr>sections_dict := []\<rparr>"

text \<open>
  \<open>read\<close> stores what a file holds into the parser, section by section, over what the
  parser holds already.  \<open>read_section\<close> and \<open>read\<close> do this for the content of a file,
  given as the options of its \<open>[DEFAULT]\<close> section and its other sections; the text of
  the file is parsed by \<open>parse_ini\<close> below.
\<close>

type_synonym ini_content = ConfigParser

definition read_section ::
  "string \<times> (string, string) dict \<Rightarrow> (string, (string, string) dict) dict
     \<Rightarrow> (string, (string, string) dict) dict" where
  "read_section sec secs =
     (case sec of (sectname, opts) \<Rightarrow>
        AList.update sectname
          (dict_update (case map_of secs sectname of None \<Rightarrow> [] | Some cursect \<Rightarrow> cursect) opts)
          secs)"

definition read :: "ConfigParser \<Rightarrow> ini_content \<Rightarrow> ConfigParser" where
  "read p f =
     \<lparr>defaults_dict = dict_update (defaults_dict p) (defaults_dict f),
      sections_dict = fold read_section (sections_dict f) (sections_dict p)\<rparr>"

subsection \<open>The text of an INI file: \<open>_read\<close>\<close>

text \<open>
  The parser is the one of CPython 3.11 with the settings of \<open>ConfigParser()\<close>:
  delimiters \<open>=\<close> and \<open>:\<close>, comment prefixes \<open>#\<close> and \<open>;\<close>, no inline comments, strict,
  empty lines in values, no option without a value.

  A file opened in text mode gives its lines with \<open>\r\n\<close> and \<open>\r\<close> turned into
  \<open>\n\<close>.  The lines are given here without the \<open>\n\<close> that ends them: \<open>_read\<close> looks at a
  line through \<open>strip\<close> and through the position of its first character that is not a
  blank, which are the same with and without it.
\<close>

fun universal_newlines :: "string \<Rightarrow> string" where
  "universal_newlines (c # d # cs) =
     (if c = CR \<and> d = NL then NL # universal_newlines cs
      else if c = CR then NL # universal_newlines (d # cs)
      else c # universal_newlines (d # cs))"
| "universal_newlines [c] = (if c = CR then [NL] else [c])"
| "universal_newlines [] = []"

fun lines_from :: "string \<Rightarrow> string \<Rightarrow> string list" where
  "lines_from cur [] = (if cur = [] then [] else [cur])"
| "lines_from cur (c # cs) =
     (if c = NL then cur # lines_from [] cs else lines_from (cur @ [c]) cs)"

definition file_lines :: "string \<Rightarrow> string list" where
  "file_lines text = lines_from [] (universal_newlines text)"

text \<open>
  \<open>SECTCRE\<close> is \<^verbatim>\<open>\[(?P<header>.+)\]\<close>, matched at the start of the stripped line: the
  header runs from the first character to the last \<open>]\<close> of the line, and is not empty.
\<close>

definition SECTCRE_match :: "string \<Rightarrow> string option" where
  "SECTCRE_match v =
     (case v of
        [] \<Rightarrow> None
      | c # rest \<Rightarrow>
          if c = CHR ''['' \<and> CHR '']'' \<in> set rest then
            (let header = rev (tl (dropWhile (\<lambda>x. x \<noteq> CHR '']'') (rev rest)))
             in if header \<noteq> [] then Some header else None)
          else None)"

text \<open>
  \<open>OPTCRE\<close> is \<^verbatim>\<open>(?P<option>.*?)\s*(?:(?P<vi>=|:)\s*(?P<value>.*))$\<close>: the option is the
  text before the first delimiter without the blanks at its end, the value the text
  after that delimiter without the blanks at its start.
\<close>

definition is_delimiter :: "char \<Rightarrow> bool" where
  "is_delimiter c \<longleftrightarrow> c = CHR ''='' \<or> c = CHR '':''"

definition OPTCRE_match :: "string \<Rightarrow> (string \<times> string) option" where
  "OPTCRE_match v =
     (if list_ex is_delimiter v then
        Some (rstrip (takeWhile (\<lambda>c. \<not> is_delimiter c) v),
              lstrip (tl (dropWhile (\<lambda>c. \<not> is_delimiter c) v)))
      else None)"

definition is_comment :: "string \<Rightarrow> bool" where
  "is_comment stripped \<longleftrightarrow> take 1 stripped = ''#'' \<or> take 1 stripped = '';''"

text \<open>
  The variables of the loop of \<open>_read\<close>: the dictionaries read so far, their values
  still lists of lines; \<open>cursect\<close>, which is \<open>None\<close>, the defaults or a section;
  \<open>optname\<close>; \<open>indent_level\<close>; and \<open>e\<close>, the \<open>ParsingError\<close> kept for the end of the
  file, of which the model keeps whether there is one.
\<close>

datatype cursor = NoSection | InDefault | InSection string

record parse_state =
  ps_defaults :: "(string, string list) dict"
  ps_sections :: "(string, (string, string list) dict) dict"
  cursect :: cursor
  optname :: "string option"
  indent_level :: nat
  pending_error :: bool

definition initial_parse_state :: parse_state where
  "initial_parse_state =
     \<lparr>ps_defaults = [], ps_sections = [], cursect = NoSection, optname = None,
      indent_level = 0, pending_error = False\<rparr>"

definition cur_dict :: "parse_state \<Rightarrow> (string, string list) dict" where
  "cur_dict st =
     (case cursect st of
        NoSection \<Rightarrow> []
      | InDefault \<Rightarrow> ps_defaults st
      | InSection name \<Rightarrow> (case map_of (ps_sections st) name of None \<Rightarrow> [] | Some d \<Rightarrow> d))"

definition upd_cur_dict ::
  "((string, string list) dict \<Rightarrow> (string, string list) dict) \<Rightarrow> parse_state \<Rightarrow> parse_state" where
  "upd_cur_dict f st =
     (case cursect st of
        NoSection \<Rightarrow> st
      | InDefault \<Rightarrow> st\<lparr>ps_defaults := f (ps_defaults st)\<rparr>
      | InSection name \<Rightarrow> st\<lparr>ps_sections := AList.map_entry name f (ps_sections st)\<rparr>)"

text \<open>\<open>cursect is not None and optname\<close>: a value can take another line.\<close>

definition continues :: "parse_state \<Rightarrow> bool" where
  "continues st \<longleftrightarrow>
     cursect st \<noteq> NoSection \<and> (case optname st of None \<Rightarrow> False | Some k \<Rightarrow> k \<noteq> [])"

text \<open>\<open>cursect[optname].append(value)\<close>.\<close>

definition append_part :: "string \<Rightarrow> parse_state \<Rightarrow> parse_state" where
  "append_part v st =
     (case optname st of
        None \<Rightarrow> st
      | Some k \<Rightarrow> upd_cur_dict (AList.map_entry k (\<lambda>parts. parts @ [v])) st)"

definition cursor_name :: "cursor \<Rightarrow> string" where
  "cursor_name c =
     (case c of NoSection \<Rightarrow> [] | InDefault \<Rightarrow> default_section | InSection name \<Rightarrow> name)"

text \<open>
  The body of the loop, for one line.  The text is parsed on its own, into
  dictionaries that start empty, and \<open>read\<close> merges the result into the parser;
  \<open>elements_added\<close>, the sections and options that this \<open>read\<close> has added, are then the
  keys of these dictionaries.
\<close>

definition read_line :: "string \<Rightarrow> parse_state \<Rightarrow> error + parse_state" where
  "read_line line st =
     (let stripped = strip line;
          comment = is_comment stripped;
          v = (if comment then [] else stripped)
      in if v = [] then
           Inr (if \<not> comment \<and> continues st then append_part [] st else st)
         else
           (let cur_indent_level = length (takeWhile isspace line)
            in if continues st \<and> cur_indent_level > indent_level st then
                 Inr (append_part v st)
               else
                 (let st1 = st\<lparr>indent_level := cur_indent_level\<rparr>
                  in case SECTCRE_match v of
                       Some sectname \<Rightarrow>
                         if sectname \<in> set (keys (ps_sections st1)) then
                           Inl (DuplicateSectionError sectname)
                         else if sectname = default_section then
                           Inr (st1\<lparr>cursect := InDefault, optname := None\<rparr>)
                         else
                           Inr (st1\<lparr>ps_sections := AList.update sectname [] (ps_sections st1),
                                    cursect := InSection sectname, optname := None\<rparr>)
                     | None \<Rightarrow>
                         if cursect st1 = NoSection then Inl MissingSectionHeaderError
                         else
                           (case OPTCRE_match v of
                              Some (option, optval) \<Rightarrow>
                                (let st2 = st1\<lparr>pending_error := pending_error st1 \<or> option = []\<rparr>;
                                     name = optionxform (rstrip option)
                                 in if name \<in> set (keys (cur_dict st2)) then
                                      Inl (DuplicateOptionError (cursor_name (cursect st2)) name)
                                    else
                                      Inr ((upd_cur_dict (AList.update name [strip optval]) st2)
                                             \<lparr>optname := Some name\<rparr>))
                            | None \<Rightarrow> Inr (st1\<lparr>pending_error := True\<rparr>)))))"

text \<open>
  The loop over the lines.  An exception ends it; the dictionaries are then as the
  lines before have left them.
\<close>

fun read_lines :: "string list \<Rightarrow> parse_state \<Rightarrow> error option \<times> parse_state" where
  "read_lines [] st = (None, st)"
| "read_lines (line # rest) st =
     (case read_line line st of
        Inl e \<Rightarrow> (Some e, st)
      | Inr st' \<Rightarrow> read_lines rest st')"

text \<open>\<open>_join_multiline_values\<close>: \<^verbatim>\<open>'\n'.join(val).rstrip()\<close> for every value.\<close>

fun join_lines :: "string list \<Rightarrow> string" where
  "join_lines [] = []"
| "join_lines [p] = p"
| "join_lines (p # q # ps) = p @ NL # join_lines (q # ps)"

definition join_value :: "string list \<Rightarrow> string" where
  "join_value parts = rstrip (join_lines parts)"

definition join_dict :: "(string, string list) dict \<Rightarrow> (string, string) dict" where
  "join_dict d = map (\<lambda>(k, parts). (k, join_value parts)) d"

definition join_multiline_values :: "parse_state \<Rightarrow> ini_content" where
  "join_multiline_values st =
     \<lparr>defaults_dict = join_dict (ps_defaults st),
      sections_dict = map (\<lambda>(name, d). (name, join_dict d)) (ps_sections st)\<rparr>"

text \<open>
  \<open>_read\<close> on the text of a file: the exception raised, if any, and the content read.
  The values are joined in a \<open>finally\<close> clause, also when the loop has raised; a
  \<open>ParsingError\<close> is raised after that, when the whole file has been read.
\<close>

definition parse_ini :: "string \<Rightarrow> error option \<times> ini_content" where
  "parse_ini text =
     (case read_lines (file_lines text) initial_parse_state of
        (Some e, st) \<Rightarrow> (Some e, join_multiline_values st)
      | (None, st) \<Rightarrow>
          (if pending_error st then Some ParsingError else None, join_multiline_values st))"

subsection \<open>The text of an INI file: \<open>write\<close>\<close>

text \<open>
  \<open>write\<close> (named \<open>write_parser\<close> here), with \<open>space_around_delimiters\<close>: the defaults
  first, if there are any, then every section; \<open>_write_section\<close> writes the header,
  a line \<^verbatim>\<open>key = value\<close> for every option, with a tabulator after every line break of
  the value, and an empty line.
\<close>

definition replace_newlines :: "string \<Rightarrow> string" where
  "replace_newlines v = concat (map (\<lambda>c. if c = NL then [NL, TAB] else [c]) v)"

definition write_item :: "string \<times> string \<Rightarrow> string" where
  "write_item item = (case item of (key, v) \<Rightarrow> key @ '' = '' @ replace_newlines v @ [NL])"

definition write_section :: "string \<Rightarrow> (string, string) dict \<Rightarrow> string" where
  "write_section name items =
     ''['' @ name @ '']'' @ [NL] @ concat (map write_item items) @ [NL]"

definition write_parser :: "ConfigParser \<Rightarrow> string" where
  "write_parser p =
     (if defaults_dict p \<noteq> [] then write_section default_section (defaults_dict p) else [])
     @ concat (map (\<lambda>(name, items). write_section name items) (sections_dict p))"

section \<open>The module \<open>cloudknot.config\<close>\<close>

subsection \<open>What the module works on\<close>

text \<open>
  What the model leaves out: the path of the config file (there is one config file,
  whatever \<open>CLOUDKNOT_CONFIG_FILE\<close> says); the encoding of the file (its text is a
  string); the errors of the file system; the calls of \<open>logging\<close>; and the construction
  of the \<open>boto3\<close> clients in \<open>set_region\<close>, which is taken to succeed.
\<close>

text \<open>
  The collaborators of \<open>cloudknot.aws\<close> are parameters.  \<open>describe_regions\<close> is the
  list of the \<open>RegionName\<close> entries of \<open>aws.clients['ec2'].describe_regions()\<close>, or the
  exception of that call.  \<open>IamRole\<close>, \<open>Vpc\<close> and \<open>SecurityGroup\<close> construct a resource
  object from an identifier: they return, or raise \<open>ResourceDoesNotExistException\<close>, or
  raise something else.  \<open>IamRole_job_id\<close> is the call \<open>IamRole(job_id=...)\<close> of the last
  loop of \<open>prune\<close>.
\<close>

record aws =
  describe_regions :: "error + string list"
  IamRole :: "string \<Rightarrow> error + unit"
  IamRole_job_id :: "string \<Rightarrow> error + unit"
  Vpc :: "string \<Rightarrow> error + unit"
  SecurityGroup :: "string \<Rightarrow> error + unit"

text \<open>
  The state: the global parser \<open>CONFIG\<close>; the text of the cloudknot config file
  (\<open>None\<close> when the file does not exist) at the path that \<open>get_config_file\<close>
  resolves from \<open>CLOUDKNOT_CONFIG_FILE\<close> or the home directory; the environment variable
  \<open>AWS_DEFAULT_REGION\<close>; the text of \<open>~/.aws/config\<close>; the region of each client in
  \<open>aws.clients\<close>; and the trace of the resource lookups sent to AWS, as pairs of the
  collaborator's name and the identifier.
\<close>

record state =
  CONFIG :: ConfigParser
  config_file :: "string option"
  AWS_DEFAULT_REGION :: "string option"
  aws_config_file :: "string option"
  clients :: "(string, string) dict"
  requests :: "(string \<times> string) list"

text \<open>\<open>get_config_file\<close>: a missing file is created, holding one comment line.\<close>

definition get_config_file :: "state \<Rightarrow> state" where
  "get_config_file s =
     (case config_file s of
        None \<Rightarrow> s\<lparr>config_file := Some ''# cloudknot configuration file''\<rparr>
      | Some f \<Rightarrow> s)"

text \<open>\<open>CONFIG.clear()\<close>.\<close>

definition CONFIG_clear :: "state \<Rightarrow> state" where
  "CONFIG_clear s = s\<lparr>CONFIG := clear (CONFIG s)\<rparr>"

text \<open>
  \<open>CONFIG.read(config_file)\<close>; \<open>read\<close> skips a file that cannot be opened.  When
  \<open>_read\<close> raises, the parser holds what has been read before.
\<close>

definition CONFIG_read :: "state \<Rightarrow> (error + unit) \<times> state" where
  "CONFIG_read s =
     (case config_file s of
        None \<Rightarrow> (Inr (), s)
      | Some text \<Rightarrow>
          (case parse_ini text of
             (None, f) \<Rightarrow> (Inr (), s\<lparr>CONFIG := read (CONFIG s) f\<rparr>)
           | (Some e, f) \<Rightarrow> (Inl e, s\<lparr>CONFIG := read (CONFIG s) f\<rparr>)))"

text \<open>\<open>with open(config_file, 'w') as f: CONFIG.write(f)\<close>.\<close>

definition CONFIG_write :: "state \<Rightarrow> state" where
  "CONFIG_write s = s\<lparr>config_file := Some (write_parser (CONFIG s))\<rparr>"

text \<open>
  The three lines that open every function but \<open>set_region\<close>, which has them after
  its check:
  \<^verbatim>\<open>config_file = get_config_file(); CONFIG.clear(); CONFIG.read(config_file)\<close>
\<close>

definition load :: "state \<Rightarrow> (error + unit) \<times> state" where
  "load s = CONFIG_read (CONFIG_clear (get_config_file s))"

subsection \<open>\<open>get_region\<close>\<close>

definition fallback_region :: string where
  "fallback_region = ''us-east-1''"

text \<open>
  The region when the config file has none: the \<open>try\<close> block of \<open>get_region\<close>.  The
  handler of \<open>TypeError\<close> is for a \<open>get\<close> without the keyword \<open>fallback\<close>; the \<open>get\<close>
  modelled here has it and never raises \<open>TypeError\<close>, so the handler has no branch.
\<close>

definition environment_region :: "state \<Rightarrow> error + string" where
  "environment_region s =
     (case AWS_DEFAULT_REGION s of
        Some region \<Rightarrow> Inr region
      | None \<Rightarrow>
          (case aws_config_file s of
             Some text \<Rightarrow>
               (case parse_ini text of
                  (None, f) \<Rightarrow> get (read empty_parser f) ''default'' ''region'' (Some fallback_region)
                | (Some e, f) \<Rightarrow> Inl e)
           | None \<Rightarrow> Inr fallback_region))"

definition get_region :: "state \<Rightarrow> (error + string) \<times> state" where
  "get_region s =
     (case load s of
        (Inl e, s1) \<Rightarrow> (Inl e, s1)
      | (Inr u, s1) \<Rightarrow>
          if has_section (CONFIG s1) ''aws'' \<and> has_option (CONFIG s1) ''aws'' ''region'' then
            (get (CONFIG s1) ''aws'' ''region'' None, s1)
          else
            (case environment_region s1 of
               Inl e \<Rightarrow> (Inl e, s1)
             | Inr region \<Rightarrow>
                 (case (if \<not> has_section (CONFIG s1) ''aws'' then add_section ''aws'' (CONFIG s1)
                        else Inr (CONFIG s1)) of
                    Inl e \<Rightarrow> (Inl e, s1)
                  | Inr c \<Rightarrow>
                      (case set_option ''aws'' ''region'' region c of
                         Inl e \<Rightarrow> (Inl e, s1\<lparr>CONFIG := c\<rparr>)
                       | Inr c' \<Rightarrow> (Inr region, CONFIG_write (s1\<lparr>CONFIG := c'\<rparr>))))))"

subsection \<open>\<open>set_region\<close>\<close>

text \<open>
  The message of the \<open>ValueError\<close> is built by
  \<^verbatim>\<open>'`region` must be in {regions:s}'.format(str(region_names))\<close>:
  the template's field is named \<open>regions\<close> and \<open>format\<close> is given one positional
  argument and no keyword, so \<open>str.format\<close> raises \<open>KeyError('regions')\<close>.
\<close>

definition format_region_message :: "string list \<Rightarrow> error + string" where
  "format_region_message region_names = Inl (KeyError ''regions'')"

definition set_region :: "aws \<Rightarrow> string \<Rightarrow> state \<Rightarrow> (error + unit) \<times> state" where
  "set_region a region s =
     (case describe_regions a of
        Inl e \<Rightarrow> (Inl e, s)
      | Inr region_names \<Rightarrow>
          if region \<notin> set region_names then
            (case format_region_message region_names of
               Inl e \<Rightarrow> (Inl e, s)
             | Inr msg \<Rightarrow> (Inl ValueError, s))
          else
            (case load s of
               (Inl e, s1) \<Rightarrow> (Inl e, s1)
             | (Inr u, s1) \<Rightarrow>
                 (case (if \<not> has_section (CONFIG s1) ''aws'' then add_section ''aws'' (CONFIG s1)
                        else Inr (CONFIG s1)) of
                    Inl e \<Rightarrow> (Inl e, s1)
                  | Inr c \<Rightarrow>
                      (case set_option ''aws'' ''region'' region c of
                         Inl e \<Rightarrow> (Inl e, s1\<lparr>CONFIG := c\<rparr>)
                       | Inr c' \<Rightarrow>
                           (let s2 = CONFIG_write (s1\<lparr>CONFIG := c'\<rparr>) in
                            (Inr (),
                             s2\<lparr>clients :=
                               AList.update ''ecr'' region
                                 (AList.update ''batch'' region
                                   (AList.update ''ec2'' region
                                     (AList.update ''iam'' region (clients s2))))\<rparr>))))))"

subsection \<open>\<open>add_resource\<close> and \<open>remove_resource\<close>\<close>

definition add_resource :: "string \<Rightarrow> string \<Rightarrow> string \<Rightarrow> state \<Rightarrow> (error + unit) \<times> state" where
  "add_resource section option v s =
     (case load s of
        (Inl e, s1) \<Rightarrow> (Inl e, s1)
      | (Inr u, s1) \<Rightarrow>
          (case (if section \<notin> set (sections (CONFIG s1)) then add_section section (CONFIG s1)
                 else Inr (CONFIG s1)) of
             Inl e \<Rightarrow> (Inl e, s1)
           | Inr c \<Rightarrow>
               (case set_option section option v c of
                  Inl e \<Rightarrow> (Inl e, s1\<lparr>CONFIG := c\<rparr>)
                | Inr c' \<Rightarrow> (Inr (), CONFIG_write (s1\<lparr>CONFIG := c'\<rparr>)))))"

definition remove_resource :: "string \<Rightarrow> string \<Rightarrow> state \<Rightarrow> (error + unit) \<times> state" where
  "remove_resource section option s =
     (case load s of
        (Inl e, s1) \<Rightarrow> (Inl e, s1)
      | (Inr u, s1) \<Rightarrow>
          (case remove_option section option (CONFIG s1) of
             Inl e \<Rightarrow> (Inl e, s1)
           | Inr (existed, c) \<Rightarrow> (Inr (), CONFIG_write (s1\<lparr>CONFIG := c\<rparr>))))"

subsection \<open>\<open>verify_sections\<close>\<close>

definition approved_sections :: "string list" where
  "approved_sections =
     [''aws'', ''roles'', ''vpc'', ''security-groups'', ''docker-repos'',
      ''job-definitions'', ''compute-environments'', ''job-queues'', ''jobs'']"

text \<open>\<open>sec.split(' ', 1)[0]\<close>: the text before the first space, all of it if none.\<close>

definition split_first :: "string \<Rightarrow> string" where
  "split_first sec = takeWhile (\<lambda>c. c \<noteq> CHR '' '') sec"

definition section_approved :: "string \<Rightarrow> bool" where
  "section_approved sec \<longleftrightarrow>
     sec \<in> set approved_sections \<or> split_first sec \<in> set [''pars'', ''jars'']"

text \<open>The loop over the list \<open>CONFIG.sections()\<close>, taken before the loop starts.\<close>

fun verify_loop :: "string list \<Rightarrow> ConfigParser \<Rightarrow> ConfigParser" where
  "verify_loop [] p = p"
| "verify_loop (section # rest) p =
     verify_loop rest
       (if \<not> section_approved section then snd (remove_section section p) else p)"

text \<open>The function ends after the loop: it has no \<open>CONFIG.write\<close>.\<close>

definition verify_sections :: "state \<Rightarrow> (error + unit) \<times> state" where
  "verify_sections s =
     (case load s of
        (Inl e, s1) \<Rightarrow> (Inl e, s1)
      | (Inr u, s1) \<Rightarrow>
          (Inr (), s1\<lparr>CONFIG := verify_loop (sections (CONFIG s1)) (CONFIG s1)\<rparr>))"

subsection \<open>\<open>prune\<close>\<close>

text \<open>A collaborator with its name, for the trace.\<close>

type_synonym checker = "string \<times> (string \<Rightarrow> error + unit)"

text \<open>
  The body of a loop of \<open>prune\<close>, for the identifier \<open>name\<close> of \<open>section\<close>:
  \<^verbatim>\<open>try: check(name)
except cloudknot.aws.ResourceDoesNotExistException: CONFIG.remove_option(section, name)\<close>
\<close>

definition check_resource :: "string \<Rightarrow> checker \<Rightarrow> string \<Rightarrow> state \<Rightarrow> (error + unit) \<times> state" where
  "check_resource section chk name s =
     (let s1 = s\<lparr>requests := requests s @ [(fst chk, name)]\<rparr> in
      case snd chk name of
        Inr u \<Rightarrow> (Inr (), s1)
      | Inl e \<Rightarrow>
          if e = ResourceDoesNotExistException then
            (case remove_option section name (CONFIG s1) of
               Inl e' \<Rightarrow> (Inl e', s1)
             | Inr (existed, c) \<Rightarrow> (Inr (), s1\<lparr>CONFIG := c\<rparr>))
          else (Inl e, s1))"

fun prune_loop :: "string \<Rightarrow> checker \<Rightarrow> string list \<Rightarrow> state \<Rightarrow> (error + unit) \<times> state" where
  "prune_loop section chk [] s = (Inr (), s)"
| "prune_loop section chk (name # names) s =
     (case check_resource section chk name s of
        (Inl e, s') \<Rightarrow> (Inl e, s')
      | (Inr u, s') \<Rightarrow> prune_loop section chk names s')"

text \<open>
  One loop: \<open>for name in CONFIG.options(section)\<close>, over the list that \<open>options\<close>
  returns.  The loop of \<open>docker-repos\<close> has the body \<open>pass\<close>: no checker.
\<close>

definition prune_section :: "string \<Rightarrow> checker option \<Rightarrow> state \<Rightarrow> (error + unit) \<times> state" where
  "prune_section section chk s =
     (case options (CONFIG s) section of
        Inl e \<Rightarrow> (Inl e, s)
      | Inr names \<Rightarrow>
          (case chk of
             None \<Rightarrow> (Inr (), s)
           | Some c \<Rightarrow> prune_loop section c names s))"

text \<open>One statement after another: an exception of the first ends the function.\<close>

definition then_do ::
  "(state \<Rightarrow> (error + unit) \<times> state) \<Rightarrow> (state \<Rightarrow> (error + unit) \<times> state)
     \<Rightarrow> state \<Rightarrow> (error + unit) \<times> state" where
  "then_do m k s = (case m s of (Inl e, s') \<Rightarrow> (Inl e, s') | (Inr u, s') \<Rightarrow> k s')"

definition prune :: "aws \<Rightarrow> state \<Rightarrow> (error + unit) \<times> state" where
  "prune a =
     then_do verify_sections
       (then_do load
       (then_do (prune_section ''roles'' (Some (''IamRole'', IamRole a)))
       (then_do (prune_section ''vpc'' (Some (''Vpc'', Vpc a)))
       (then_do (prune_section ''security-groups'' (Some (''SecurityGroup'', SecurityGroup a)))
       (then_do (prune_section ''docker-repos'' None)
       (then_do (prune_section ''job-definitions'' (Some (''IamRole'', IamRole a)))
       (then_do (prune_section ''compute-environments'' (Some (''IamRole'', IamRole a)))
       (then_do (prune_section ''job-queues'' (Some (''IamRole'', IamRole a)))
         (prune_section ''jobs'' (Some (''IamRole(job_id)'', IamRole_job_id a)))))))))))"

text \<open>The same eight loops as a list, for the proofs.\<close>

definition prune_steps :: "aws \<Rightarrow> (string \<times> checker option) list" where
  "prune_steps a =
     [(''roles'', Some (''IamRole'', IamRole a)),
      (''vpc'', Some (''Vpc'', Vpc a)),
      (''security-groups'', Some (''SecurityGroup'', SecurityGroup a)),
      (''docker-repos'', None),
      (''job-definitions'', Some (''IamRole'', IamRole a)),
      (''compute-environments'', Some (''IamRole'', IamRole a)),
      (''job-queues'', Some (''IamRole'', IamRole a)),
      (''jobs'', Some (''IamRole(job_id)'', IamRole_job_id a))]"

fun run_steps :: "(string \<times> checker option) list \<Rightarrow> state \<Rightarrow> (error + unit) \<times> state" where
  "run_steps [] s = (Inr (), s)"
| "run_steps ((section, chk) # steps) s =
     (case prune_section section chk s of
        (Inl e, s') \<Rightarrow> (Inl e, s')
      | (Inr u, s') \<Rightarrow> run_steps steps s')"

section \<open>Notions for stating the properties\<close>

text \<open>
  Keys are unique in a Python dictionary.  \<open>wf_sections\<close> says so of the association
  list that stands for \<open>_sections\<close>: no section twice, no option twice in a section.
\<close>

definition wf_sections :: "(string, (string, string) dict) dict \<Rightarrow> bool" where
  "wf_sections d \<longleftrightarrow> distinct (keys d) \<and> list_all (\<lambda>e. distinct (keys (snd e))) d"

text \<open>
  The value that \<open>get(section, option, raw=True)\<close> finds, in the section and then in
  the defaults; \<open>None\<close> when the section or the option is missing.
\<close>

definition stored_value :: "ConfigParser \<Rightarrow> string \<Rightarrow> string \<Rightarrow> string option" where
  "stored_value p section option =
     (case unify_values p section of
        Inl e \<Rightarrow> None
      | Inr d \<Rightarrow> d (optionxform option))"

text \<open>A text, given by its lines.\<close>

definition text_lines :: "string list \<Rightarrow> string" where
  "text_lines ls = concat (map (\<lambda>l. l @ [NL]) ls)"

text \<open>A state of a fresh process, with no config file yet, and one with a file.\<close>

definition fresh_state :: state where
  "fresh_state =
     \<lparr>CONFIG = empty_parser, config_file = None, AWS_DEFAULT_REGION = None,
      aws_config_file = None, clients = [], requests = []\<rparr>"

definition with_file :: "string list \<Rightarrow> state" where
  "with_file ls = fresh_state\<lparr>config_file := Some (text_lines ls)\<rparr>"

text \<open>
  The text of the config file when \<open>get_config_file\<close> has returned; the exception
  that \<open>read\<close> raises on it, if any; and what \<open>read\<close> finds in it.
\<close>

definition file_text :: "state \<Rightarrow> string" where
  "file_text s =
     (case config_file s of None \<Rightarrow> ''# cloudknot configuration file'' | Some t \<Rightarrow> t)"

definition file_error :: "state \<Rightarrow> error option" where
  "file_error s = fst (parse_ini (file_text s))"

definition file_content :: "state \<Rightarrow> ini_content" where
  "file_content s = snd (parse_ini (file_text s))"

text \<open>The state after the three lines that \<open>load\<close> stands for.\<close>

definition loaded_state :: "state \<Rightarrow> state" where
  "loaded_state s =
     s\<lparr>CONFIG := read (clear (CONFIG s)) (file_content s), config_file := Some (file_text s)\<rparr>"

text \<open>
  A process whose parser holds, from a config file it has read before, the option
  \<open>region\<close> of a section \<open>[DEFAULT]\<close>.  The config file is now another one: it has
  the section \<open>aws\<close> and no option, or it does not exist.
\<close>

definition earlier_file :: "string list" where
  "earlier_file = [''[DEFAULT]'', ''region = stale-1'']"

definition stale_state :: "string option \<Rightarrow> string option \<Rightarrow> state" where
  "stale_state file region =
     (snd (verify_sections (with_file earlier_file)))
       \<lparr>config_file := file, AWS_DEFAULT_REGION := region\<rparr>"

text \<open>
  The lookup of \<open>name\<close> returns, or says that the resource does not exist.
\<close>

definition found_or_gone :: "checker \<Rightarrow> string \<Rightarrow> bool" where
  "found_or_gone chk name \<longleftrightarrow>
     snd chk name = Inr () \<or> snd chk name = Inl ResourceDoesNotExistException"

text \<open>
  The options of a section after the loop over \<open>names\<close>: \<open>remove_option\<close> has been
  called for each name whose lookup said that the resource does not exist.
\<close>

definition prune_options :: "checker \<Rightarrow> string list \<Rightarrow> (string, string) dict \<Rightarrow> (string, string) dict" where
  "prune_options chk names opts =
     fold (\<lambda>name d. if snd chk name = Inl ResourceDoesNotExistException
                      then AList.delete (optionxform name) d else d) names opts"

text \<open>
  The state with the options of one section replaced.
\<close>

definition set_section :: "string \<Rightarrow> (string, string) dict \<Rightarrow> state \<Rightarrow> state" where
  "set_section section opts s =
     s\<lparr>CONFIG := (CONFIG s)\<lparr>sections_dict := AList.update section opts (sections_dict (CONFIG s))\<rparr>\<rparr>"

text \<open>
  The state with more lookups in the trace.
\<close>

definition add_requests :: "(string \<times> string) list \<Rightarrow> state \<Rightarrow> state" where
  "add_requests rs s = s\<lparr>requests := requests s @ rs\<rparr>"

text \<open>
  The names a loop of \<open>prune\<close> goes through: the list that \<open>options\<close> returns.
\<close>

definition step_names :: "ConfigParser \<Rightarrow> string \<Rightarrow> string list" where
  "step_names p section = (case options p section of Inl e \<Rightarrow> [] | Inr names \<Rightarrow> names)"

text \<open>
  A loop of \<open>prune\<close> runs to its end: the section is there, and every lookup of the
  loop returns or says that the resource does not exist.
\<close>

definition section_passes :: "ConfigParser \<Rightarrow> string \<times> checker option \<Rightarrow> bool" where
  "section_passes p step \<longleftrightarrow>
     has_section p (fst step)
     \<and> (case snd step of
          None \<Rightarrow> True
        | Some chk \<Rightarrow> list_all (found_or_gone chk) (step_names p (fst step)))"

text \<open>
  The lookups of a loop that runs to its end.
\<close>

definition step_requests :: "ConfigParser \<Rightarrow> string \<times> checker option \<Rightarrow> (string \<times> string) list" where
  "step_requests p step =
     (case snd step of
        None \<Rightarrow> []
      | Some chk \<Rightarrow> map (Pair (fst chk)) (step_names p (fst step)))"

text \<open>
  Two parsers with the same defaults and the same options in one section.
\<close>

definition agree_on :: "ConfigParser \<Rightarrow> ConfigParser \<Rightarrow> string \<Rightarrow> bool" where
  "agree_on p q section \<longleftrightarrow>
     defaults_dict p = defaults_dict q
     \<and> map_of (sections_dict p) section = map_of (sections_dict q) section"

text \<open>
  The state after a loop that has run to its end.
\<close>

definition after_step :: "string \<times> checker option \<Rightarrow> state \<Rightarrow> state" where
  "after_step step s =
     (case snd step of
        None \<Rightarrow> s
      | Some chk \<Rightarrow>
          (case map_of (sections_dict (CONFIG s)) (fst step) of
             None \<Rightarrow> s
           | Some opts \<Rightarrow>
               add_requests (map (Pair (fst chk)) (step_names (CONFIG s) (fst step)))
                 (set_section (fst step)
                    (prune_options chk (step_names (CONFIG s) (fst step)) opts) s)))"

text \<open>
  The sections of the loops are different, and none is empty or \<open>DEFAULT\<close>.
\<close>

definition proper_names :: "(string \<times> checker option) list \<Rightarrow> bool" where
  "proper_names steps \<longleftrightarrow>
     distinct (map fst steps)
     \<and> list_all (\<lambda>step. fst step \<noteq> [] \<and> fst step \<noteq> default_section) steps"

text \<open>
  The parser that the loops of \<open>prune\<close> work on: \<open>CONFIG\<close> after \<open>verify_sections\<close>,
  \<open>clear\<close> and \<open>read\<close>.
\<close>

definition loaded :: "state \<Rightarrow> ConfigParser" where
  "loaded s = CONFIG (snd (load (snd (verify_sections s))))"

text \<open>
  Collaborators for the examples: the role \<open>good-role\<close> exists and no other; the
  VPC \<open>vpc-1\<close> does not exist, the lookup of \<open>vpc-2\<close> fails with another error.
\<close>

definition example_aws :: aws where
  "example_aws =
     \<lparr>describe_regions = Inr [''us-east-1'', ''eu-west-1''],
      IamRole = (\<lambda>name. if name = ''good-role'' then Inr () else Inl ResourceDoesNotExistException),
      IamRole_job_id = (\<lambda>job_id. Inr ()),
      Vpc = (\<lambda>vpc_id. if vpc_id = ''vpc-1'' then Inl ResourceDoesNotExistException
                       else if vpc_id = ''vpc-2'' then Inl (ClientError ''AccessDenied'')
                       else Inr ()),
      SecurityGroup = (\<lambda>sg_id. Inr ())\<rparr>"

text \<open>
  A config file with the eight sections that \<open>prune\<close> goes through, as \<open>write\<close>
  leaves it.
\<close>

definition tracked_file :: "string list \<Rightarrow> string list \<Rightarrow> string list" where
  "tracked_file roles vpcs =
     [''[roles]''] @ roles @ ['''', ''[vpc]''] @ vpcs
     @ ['''', ''[security-groups]'', ''sg-1 = web'', '''', ''[docker-repos]'', '''',
        ''[job-definitions]'', '''', ''[compute-environments]'', '''', ''[job-queues]'', '''',
        ''[jobs]'', '''']"

definition two_roles :: "string list" where
  "two_roles = [''good-role = arn1'', ''gone-role = arn2'']"

definition three_vpcs :: "string list" where
  "three_vpcs = [''vpc-1 = a'', ''vpc-2 = b'', ''vpc-3 = c'']"

section \<open>Basic facts\<close>

subsection \<open>\<open>load\<close>\<close>

lemma config_file_get_config_file: "config_file (get_config_file s) = Some (file_text s)"
  by (simp add: get_config_file_def file_text_def split: option.splits)

lemma load_eq:
  "load s = ((case file_error s of None \<Rightarrow> Inr () | Some e \<Rightarrow> Inl e), loaded_state s)"
proof (cases s)
  case (fields c f r a cl rq)
  then show ?thesis
    by (cases f; cases "parse_ini (file_text s)"; cases "fst (parse_ini (file_text s))")
       (simp_all add: load_def CONFIG_read_def CONFIG_clear_def get_config_file_def
         file_error_def file_content_def loaded_state_def file_text_def)
qed

lemma file_text_loaded_state [simp]: "file_text (loaded_state s) = file_text s"
  by (simp add: loaded_state_def file_text_def)

lemma file_text_CONFIG_update [simp]: "file_text (s\<lparr>CONFIG := c\<rparr>) = file_text s"
  by (simp add: file_text_def)

lemma file_error_loaded_state [simp]: "file_error (loaded_state s) = file_error s"
  by (simp add: file_error_def)

lemma file_error_CONFIG_update [simp]: "file_error (s\<lparr>CONFIG := c\<rparr>) = file_error s"
  by (simp add: file_error_def)

lemma file_content_loaded_state [simp]: "file_content (loaded_state s) = file_content s"
  by (simp add: file_content_def)

lemma file_content_CONFIG_update [simp]: "file_content (s\<lparr>CONFIG := c\<rparr>) = file_content s"
  by (simp add: file_content_def)

lemma config_file_loaded_state: "config_file (loaded_state s) = Some (file_text s)"
  by (simp add: loaded_state_def)

lemma requests_loaded_state: "requests (loaded_state s) = requests s"
  by (simp add: loaded_state_def)

lemma CONFIG_loaded_state: "CONFIG (loaded_state s) = read (clear (CONFIG s)) (file_content s)"
  by (simp add: loaded_state_def)

lemma sections_dict_loaded_state:
  "sections_dict (CONFIG (loaded_state s))
     = fold read_section (sections_dict (file_content s)) []"
  by (simp add: loaded_state_def read_def clear_def)

subsection \<open>What \<open>verify_sections\<close> keeps\<close>

lemma filter_delete:
  "filter P (AList.delete x d) = filter (\<lambda>e. fst e \<noteq> x \<and> P e) d"
  by (induction d) auto

lemma verify_loop_filter:
  "verify_loop xs p =
     p\<lparr>sections_dict :=
       filter (\<lambda>e. fst e \<in> set xs \<longrightarrow> section_approved (fst e)) (sections_dict p)\<rparr>"
proof (induction xs arbitrary: p)
  case Nil
  then show ?case by simp
next
  case (Cons x xs)
  show ?case
    by (simp add: Cons.IH remove_section_def filter_delete)
qed

lemma verify_loop_sections:
  "verify_loop (sections p) p =
     p\<lparr>sections_dict := filter (\<lambda>e. section_approved (fst e)) (sections_dict p)\<rparr>"
proof -
  have "filter (\<lambda>e. fst e \<in> set (sections p) \<longrightarrow> section_approved (fst e)) (sections_dict p)
        = filter (\<lambda>e. section_approved (fst e)) (sections_dict p)"
    by (rule filter_cong) (auto simp: sections_def keys_def)
  then show ?thesis by (simp add: verify_loop_filter)
qed

lemma verify_sections_eq:
  "verify_sections s =
     (case file_error s of
        None \<Rightarrow>
          (Inr (),
           (loaded_state s)\<lparr>CONFIG := (CONFIG (loaded_state s))
              \<lparr>sections_dict :=
                 filter (\<lambda>e. section_approved (fst e)) (sections_dict (CONFIG (loaded_state s)))\<rparr>\<rparr>)
      | Some e \<Rightarrow> (Inl e, loaded_state s))"
  by (simp add: verify_sections_def load_eq verify_loop_sections split: option.splits)

lemma file_text_verify_sections [simp]: "file_text (snd (verify_sections s)) = file_text s"
  by (simp add: verify_sections_eq split: option.splits)

lemma file_error_verify_sections [simp]: "file_error (snd (verify_sections s)) = file_error s"
  by (simp add: file_error_def)

lemma file_content_verify_sections [simp]: "file_content (snd (verify_sections s)) = file_content s"
  by (simp add: file_content_def)

lemma fst_verify_sections:
  "fst (verify_sections s) = (case file_error s of None \<Rightarrow> Inr () | Some e \<Rightarrow> Inl e)"
  by (simp add: verify_sections_eq split: option.splits)

lemma config_file_verify_sections:
  "config_file (snd (verify_sections s)) = Some (file_text s)"
  by (simp add: verify_sections_eq config_file_loaded_state split: option.splits)

lemma requests_verify_sections: "requests (snd (verify_sections s)) = requests s"
  by (simp add: verify_sections_eq requests_loaded_state split: option.splits)

lemma loaded_eq:
  "loaded s = read (clear (CONFIG (snd (verify_sections s)))) (file_content s)"
  by (simp add: loaded_def load_eq CONFIG_loaded_state)

lemma sections_dict_loaded:
  "sections_dict (loaded s) = fold read_section (sections_dict (file_content s)) []"
  by (simp add: loaded_eq read_def clear_def)

lemma sections_dict_verify_sections:
  "sections_dict (CONFIG (snd (verify_sections s))) =
     (case file_error s of
        None \<Rightarrow>
          filter (\<lambda>e. section_approved (fst e))
            (fold read_section (sections_dict (file_content s)) [])
      | Some e \<Rightarrow> fold read_section (sections_dict (file_content s)) [])"
  by (simp add: verify_sections_eq sections_dict_loaded_state split: option.splits)

lemma run_steps_then_do:
  "run_steps ((sec, chk) # steps) = then_do (prune_section sec chk) (run_steps steps)"
  by (rule ext) (simp add: then_do_def)

lemma then_do_run_steps_Nil: "then_do m (run_steps []) = m"
  by (rule ext) (auto simp: then_do_def split: prod.splits sum.splits)

lemma prune_then_do:
  "prune a = then_do verify_sections (then_do load (run_steps (prune_steps a)))"
  unfolding prune_def prune_steps_def
  by (simp only: run_steps_then_do then_do_run_steps_Nil)

lemma prune_run_steps:
  "prune a s =
     (case file_error s of
        None \<Rightarrow> run_steps (prune_steps a) (loaded_state (snd (verify_sections s)))
      | Some e \<Rightarrow> (Inl e, loaded_state s))"
  by (cases "file_error s")
     (simp_all add: prune_then_do then_do_def load_eq verify_sections_eq)

lemma CONFIG_before_loops: "CONFIG (loaded_state (snd (verify_sections s))) = loaded s"
  by (simp add: loaded_def load_eq)

subsection \<open>Dictionaries and \<open>read\<close>\<close>

lemma in_keys_iff: "k \<in> set (keys d) \<longleftrightarrow> map_of d k \<noteq> None"
  by (simp add: keys_def map_of_eq_None_iff)

lemma has_section_iff: "has_section p section \<longleftrightarrow> map_of (sections_dict p) section \<noteq> None"
  by (simp add: has_section_def in_keys_iff)

lemma keys_simps: "keys [] = []" "keys (x # xs) = fst x # keys xs"
  by (simp_all add: keys_def)

lemma update_fresh: "k \<notin> fst ` set d \<Longrightarrow> AList.update k v d = d @ [(k, v)]"
  by (induction d) auto

lemma distinct_dict_update:
  "distinct (keys d) \<Longrightarrow> distinct (keys (dict_update d e))"
  unfolding dict_update_def keys_def
  by (induction e arbitrary: d) (auto simp: AList.distinct_update)

lemma dict_update_fresh:
  "distinct (keys e) \<Longrightarrow> fst ` set e \<inter> fst ` set d = {} \<Longrightarrow> dict_update d e = d @ e"
  unfolding dict_update_def keys_def
proof (induction e arbitrary: d)
  case Nil
  then show ?case by simp
next
  case (Cons x e)
  obtain k v where x: "x = (k, v)" by (cases x)
  have 1: "AList.update k v d = d @ [(k, v)]"
    using Cons.prems x by (intro update_fresh) auto
  have "fold (\<lambda>(k, v). AList.update k v) e (d @ [(k, v)]) = (d @ [(k, v)]) @ e"
    using Cons.prems x by (intro Cons.IH) auto
  then show ?case using x 1 by simp
qed

lemma dict_update_Nil: "distinct (keys e) \<Longrightarrow> dict_update [] e = e"
  using dict_update_fresh [of e "[]"] by simp

lemma keys_update_set: "set (keys (AList.update k v d)) = insert k (set (keys d))"
  using AList.dom_update [of k v d] by (simp add: keys_def)

lemma list_all_update:
  "list_all P d \<Longrightarrow> P (k, v) \<Longrightarrow> list_all P (AList.update k v d)"
  by (induction d) auto

lemma wf_sections_update:
  "wf_sections d \<Longrightarrow> distinct (keys X) \<Longrightarrow> wf_sections (AList.update k X d)"
  unfolding wf_sections_def
  by (simp add: keys_def AList.distinct_update list_all_update)

lemma wf_sections_lookup:
  "wf_sections d \<Longrightarrow> map_of d k = Some opts \<Longrightarrow> distinct (keys opts)"
  by (auto simp: wf_sections_def list_all_iff dest!: map_of_SomeD)

lemma fold_read_section_fresh:
  "wf_sections secs \<Longrightarrow> fst ` set secs \<inter> fst ` set acc = {} \<Longrightarrow>
   fold read_section secs acc = acc @ secs"
proof (induction secs arbitrary: acc)
  case Nil
  then show ?case by simp
next
  case (Cons x secs)
  obtain n opts where x: "x = (n, opts)" by (cases x)
  have none: "map_of acc n = None"
    using Cons.prems x by (auto simp: map_of_eq_None_iff)
  have "read_section x acc = acc @ [(n, opts)]"
    using Cons.prems x none
    by (simp add: read_section_def wf_sections_def dict_update_Nil update_fresh)
  moreover have "fold read_section secs (acc @ [(n, opts)]) = (acc @ [(n, opts)]) @ secs"
    using Cons.prems x by (intro Cons.IH) (auto simp: wf_sections_def keys_def)
  ultimately show ?case using x by simp
qed

lemma fold_read_section_Nil: "wf_sections secs \<Longrightarrow> fold read_section secs [] = secs"
  using fold_read_section_fresh [of secs "[]"] by simp

lemma set_keys_read_section:
  "set (keys (read_section sec secs)) = insert (fst sec) (set (keys secs))"
  by (cases sec) (simp add: read_section_def keys_update_set)

lemma set_keys_fold_read_section:
  "set (keys (fold read_section secs acc)) = set (keys acc) \<union> set (keys secs)"
  by (induction secs arbitrary: acc) (auto simp: set_keys_read_section keys_simps)

lemma has_section_loaded:
  "has_section (loaded s) sec \<longleftrightarrow> sec \<in> set (sections (file_content s))"
  by (simp add: has_section_def sections_dict_loaded set_keys_fold_read_section keys_simps
      sections_def)

subsection \<open>The loops of \<open>prune\<close>\<close>

lemma set_section_same:
  "map_of (sections_dict (CONFIG s)) section = Some opts \<Longrightarrow> set_section section opts s = s"
  by (simp add: set_section_def update_triv)

lemma prune_loop_passes:
  assumes "section \<noteq> []" and "section \<noteq> default_section"
  shows "map_of (sections_dict (CONFIG s)) section = Some opts \<Longrightarrow>
         list_all (found_or_gone chk) names \<Longrightarrow>
         prune_loop section chk names s
           = (Inr (), add_requests (map (Pair (fst chk)) names)
                        (set_section section (prune_options chk names opts) s))"
proof (induction names arbitrary: s opts)
  case Nil
  then show ?case
    by (simp add: prune_options_def add_requests_def set_section_same)
next
  case (Cons name names)
  let ?s1 = "s\<lparr>requests := requests s @ [(fst chk, name)]\<rparr>"
  have fg: "found_or_gone chk name" and rest: "list_all (found_or_gone chk) names"
    using Cons.prems(2) by simp_all
  show ?case
  proof (cases "snd chk name = Inl ResourceDoesNotExistException")
    case True
    let ?opts = "AList.delete (optionxform name) opts"
    let ?s2 = "set_section section ?opts ?s1"
    have step: "check_resource section chk name s = (Inr (), ?s2)"
      using True assms Cons.prems(1)
      by (simp add: check_resource_def Let_def remove_option_def set_section_def)
    have look: "map_of (sections_dict (CONFIG ?s2)) section = Some ?opts"
      by (simp add: set_section_def update_conv')
    have "prune_loop section chk names ?s2
        = (Inr (), add_requests (map (Pair (fst chk)) names)
                     (set_section section (prune_options chk names ?opts) ?s2))"
      using look rest by (rule Cons.IH)
    with step True show ?thesis
      by (simp add: prune_options_def add_requests_def set_section_def)
  next
    case False
    with fg have ok: "snd chk name = Inr ()" by (simp add: found_or_gone_def)
    have step: "check_resource section chk name s = (Inr (), ?s1)"
      using ok by (simp add: check_resource_def Let_def)
    have look: "map_of (sections_dict (CONFIG ?s1)) section = Some opts"
      using Cons.prems(1) by simp
    have "prune_loop section chk names ?s1
        = (Inr (), add_requests (map (Pair (fst chk)) names)
                     (set_section section (prune_options chk names opts) ?s1))"
      using look rest by (rule Cons.IH)
    with step ok show ?thesis
      by (simp add: prune_options_def add_requests_def set_section_def)
  qed
qed

lemma agree_on_options: "agree_on p q section \<Longrightarrow> options p section = options q section"
  by (simp add: agree_on_def options_def split: option.splits)

lemma agree_on_step_names: "agree_on p q section \<Longrightarrow> step_names p section = step_names q section"
  by (simp add: step_names_def agree_on_options)

lemma agree_on_has_section: "agree_on p q section \<Longrightarrow> has_section p section = has_section q section"
  by (simp add: agree_on_def has_section_iff)

lemma agree_on_section_passes:
  "agree_on p q (fst step) \<Longrightarrow> section_passes p step = section_passes q step"
  by (simp add: section_passes_def agree_on_step_names agree_on_has_section split: option.splits)

lemma agree_on_step_requests:
  "agree_on p q (fst step) \<Longrightarrow> step_requests p step = step_requests q step"
  by (simp add: step_requests_def agree_on_step_names split: option.splits)

lemma options_present:
  "map_of (sections_dict p) section = Some opts \<Longrightarrow>
   options p section = Inr (step_names p section)"
  by (simp add: options_def step_names_def)

lemma prune_section_absent:
  "\<not> has_section (CONFIG s) section \<Longrightarrow>
   prune_section section chk s = (Inl (NoSectionError section), s)"
  by (simp add: prune_section_def options_def has_section_iff)

lemma prune_section_passes:
  assumes "section \<noteq> []" and "section \<noteq> default_section"
    and "section_passes (CONFIG s) (section, chk)"
  shows "prune_section section chk s = (Inr (), after_step (section, chk) s)"
proof -
  obtain opts where opts: "map_of (sections_dict (CONFIG s)) section = Some opts"
    using assms(3) by (auto simp: section_passes_def has_section_iff)
  show ?thesis
  proof (cases chk)
    case None
    with opts show ?thesis
      by (simp add: prune_section_def options_def after_step_def)
  next
    case (Some c)
    then have "list_all (found_or_gone c) (step_names (CONFIG s) section)"
      using assms(3) by (simp add: section_passes_def)
    with assms(1,2) opts
    have "prune_loop section c (step_names (CONFIG s) section) s
        = (Inr (), add_requests (map (Pair (fst c)) (step_names (CONFIG s) section))
                     (set_section section
                        (prune_options c (step_names (CONFIG s) section) opts) s))"
      by (intro prune_loop_passes)
    with Some opts show ?thesis
      by (simp add: prune_section_def options_present after_step_def)
  qed
qed

lemma after_step_other:
  "section \<noteq> fst step \<Longrightarrow> agree_on (CONFIG (after_step step s)) (CONFIG s) section"
  by (auto simp: after_step_def agree_on_def add_requests_def set_section_def update_conv'
      split: option.splits)

lemma after_step_requests:
  "section_passes (CONFIG s) step \<Longrightarrow>
   requests (after_step step s) = requests s @ step_requests (CONFIG s) step"
  by (auto simp: after_step_def step_requests_def add_requests_def set_section_def
      section_passes_def has_section_iff split: option.splits)

lemma agree_on_refl: "agree_on p p section"
  by (simp add: agree_on_def)

lemma agree_on_trans: "agree_on p q section \<Longrightarrow> agree_on q r section \<Longrightarrow> agree_on p r section"
  by (simp add: agree_on_def)

lemma run_steps_append:
  "run_steps (xs @ ys) s =
     (case run_steps xs s of
        (Inl e, s') \<Rightarrow> (Inl e, s')
      | (Inr u, s') \<Rightarrow> run_steps ys s')"
  by (induction xs arbitrary: s) (auto split: prod.splits sum.splits)

lemma proper_names_Cons:
  "proper_names (step # steps) \<Longrightarrow>
   fst step \<noteq> [] \<and> fst step \<noteq> default_section \<and> fst step \<notin> fst ` set steps
   \<and> proper_names steps"
  by (simp add: proper_names_def)

lemma section_passes_after_step:
  assumes "fst step \<notin> fst ` set steps" and "list_all (section_passes (CONFIG s)) steps"
  shows "list_all (section_passes (CONFIG (after_step step s))) steps"
proof -
  have "section_passes (CONFIG (after_step step s)) st = section_passes (CONFIG s) st"
    if "st \<in> set steps" for st
  proof -
    from that assms(1) have "fst st \<noteq> fst step" by (metis image_eqI)
    then show ?thesis by (intro agree_on_section_passes after_step_other)
  qed
  with assms(2) show ?thesis by (simp add: list_all_iff)
qed

lemma run_steps_passes:
  "proper_names steps \<Longrightarrow> list_all (section_passes (CONFIG s)) steps \<Longrightarrow>
   run_steps steps s = (Inr (), fold after_step steps s)"
proof (induction steps arbitrary: s)
  case Nil
  then show ?case by simp
next
  case (Cons step steps)
  obtain sec chk where step: "step = (sec, chk)" by (cases step)
  have names: "sec \<noteq> []" "sec \<noteq> default_section" "fst step \<notin> fst ` set steps"
    "proper_names steps"
    using proper_names_Cons [OF Cons.prems(1)] step by simp_all
  have "prune_section sec chk s = (Inr (), after_step step s)"
    using names(1,2) Cons.prems(2) step by (simp add: prune_section_passes)
  moreover have "run_steps steps (after_step step s) = (Inr (), fold after_step steps (after_step step s))"
    using names(3,4) Cons.prems(2) by (intro Cons.IH section_passes_after_step) simp_all
  ultimately show ?case using step by simp
qed

lemma fold_after_step_other:
  "section \<notin> fst ` set steps \<Longrightarrow>
   agree_on (CONFIG (fold after_step steps s)) (CONFIG s) section"
proof (induction steps arbitrary: s)
  case Nil
  then show ?case by (simp add: agree_on_refl)
next
  case (Cons step steps)
  then have "agree_on (CONFIG (fold after_step steps (after_step step s)))
      (CONFIG (after_step step s)) section"
    by simp
  moreover have "agree_on (CONFIG (after_step step s)) (CONFIG s) section"
    using Cons.prems by (intro after_step_other) auto
  ultimately show ?case by (auto intro: agree_on_trans)
qed

lemma fold_after_step_requests:
  "distinct (map fst steps) \<Longrightarrow> list_all (section_passes (CONFIG s)) steps \<Longrightarrow>
   requests (fold after_step steps s)
     = requests s @ concat (map (step_requests (CONFIG s)) steps)"
proof (induction steps arbitrary: s)
  case Nil
  then show ?case by simp
next
  case (Cons x steps)
  have fresh: "fst x \<notin> fst ` set steps" using Cons.prems(1) by simp
  have "step_requests (CONFIG (after_step x s)) st = step_requests (CONFIG s) st"
    if "st \<in> set steps" for st
  proof -
    from that fresh have "fst st \<noteq> fst x" by (metis image_eqI)
    then show ?thesis by (intro agree_on_step_requests after_step_other)
  qed
  then have same: "map (step_requests (CONFIG (after_step x s))) steps
      = map (step_requests (CONFIG s)) steps"
    by simp
  have "requests (fold after_step steps (after_step x s))
      = requests (after_step x s) @ concat (map (step_requests (CONFIG (after_step x s))) steps)"
    using Cons.prems fresh by (intro Cons.IH section_passes_after_step) simp_all
  then show ?case
    using Cons.prems(2) same by (simp add: after_step_requests)
qed

lemma proper_prune_steps: "proper_names (prune_steps a)"
  by (simp add: proper_names_def prune_steps_def default_section_def)

lemma proper_names_split:
  assumes "proper_names (before @ step # after)"
  shows "proper_names before" and "fst step \<noteq> []" and "fst step \<noteq> default_section"
    and "fst step \<notin> fst ` set before" and "fst step \<notin> fst ` set after"
    and "fst ` set before \<inter> fst ` set after = {}"
  using assms by (auto simp: proper_names_def)

subsection \<open>Which sections \<open>prune\<close> needs\<close>

lemma check_resource_keys:
  assumes "sec \<noteq> []" and "sec \<noteq> default_section"
    and "check_resource sec chk name s = (r, s')"
  shows "set (keys (sections_dict (CONFIG s'))) = set (keys (sections_dict (CONFIG s)))"
proof (cases "map_of (sections_dict (CONFIG s)) sec")
  case None
  with assms show ?thesis
    by (auto simp: check_resource_def Let_def remove_option_def split: sum.splits if_splits)
next
  case (Some opts)
  then have "sec \<in> set (keys (sections_dict (CONFIG s)))"
    by (simp add: in_keys_iff)
  with Some assms show ?thesis
    by (auto simp: check_resource_def Let_def remove_option_def keys_update_set
        split: sum.splits if_splits)
qed

lemma prune_loop_keys:
  assumes "sec \<noteq> []" and "sec \<noteq> default_section"
  shows "prune_loop sec chk names s = (r, s') \<Longrightarrow>
         set (keys (sections_dict (CONFIG s'))) = set (keys (sections_dict (CONFIG s)))"
proof (induction names arbitrary: s)
  case Nil
  then show ?case by simp
next
  case (Cons name names)
  obtain r1 s1 where step: "check_resource sec chk name s = (r1, s1)"
    by (cases "check_resource sec chk name s")
  have k1: "set (keys (sections_dict (CONFIG s1))) = set (keys (sections_dict (CONFIG s)))"
    using assms step by (rule check_resource_keys)
  show ?case
  proof (cases r1)
    case (Inl e)
    with Cons.prems step k1 show ?thesis by simp
  next
    case (Inr u)
    with Cons.prems step have "prune_loop sec chk names s1 = (r, s')" by simp
    then have "set (keys (sections_dict (CONFIG s'))) = set (keys (sections_dict (CONFIG s1)))"
      by (rule Cons.IH)
    with k1 show ?thesis by simp
  qed
qed

lemma prune_section_returns:
  assumes "sec \<noteq> []" and "sec \<noteq> default_section"
    and "prune_section sec chk s = (Inr (), s')"
  shows "has_section (CONFIG s) sec"
    and "has_section (CONFIG s') x = has_section (CONFIG s) x"
proof -
  show "has_section (CONFIG s) sec"
    using assms(3)
    by (auto simp: prune_section_def options_def has_section_iff split: option.splits)
  have "set (keys (sections_dict (CONFIG s'))) = set (keys (sections_dict (CONFIG s)))"
    using assms
    by (auto simp: prune_section_def split: sum.splits option.splits dest: prune_loop_keys)
  then show "has_section (CONFIG s') x = has_section (CONFIG s) x"
    by (simp add: has_section_def)
qed

lemma run_steps_returns:
  "proper_names steps \<Longrightarrow> run_steps steps s = (Inr (), s') \<Longrightarrow>
   list_all (\<lambda>st. has_section (CONFIG s) (fst st)) steps"
proof (induction steps arbitrary: s)
  case Nil
  then show ?case by simp
next
  case (Cons step steps)
  obtain sec chk where step: "step = (sec, chk)" by (cases step)
  have names: "sec \<noteq> []" "sec \<noteq> default_section" "proper_names steps"
    using proper_names_Cons [OF Cons.prems(1)] step by simp_all
  obtain s1 where s1: "prune_section sec chk s = (Inr (), s1)" and rest: "run_steps steps s1 = (Inr (), s')"
    using Cons.prems(2) step by (auto split: prod.splits sum.splits)
  have "list_all (\<lambda>st. has_section (CONFIG s1) (fst st)) steps"
    using names(3) rest by (rule Cons.IH)
  then have "list_all (\<lambda>st. has_section (CONFIG s) (fst st)) steps"
    using prune_section_returns(2) [OF names(1,2) s1] by simp
  moreover have "has_section (CONFIG s) sec"
    using names(1,2) s1 by (rule prune_section_returns(1))
  ultimately show ?case using step by simp
qed

subsection \<open>\<open>prune\<close> leaves the file alone\<close>

lemma check_resource_file:
  "check_resource sec chk name s = (r, s') \<Longrightarrow> config_file s' = config_file s"
  by (auto simp: check_resource_def Let_def split: sum.splits if_splits)

lemma prune_loop_file:
  "prune_loop sec chk names s = (r, s') \<Longrightarrow> config_file s' = config_file s"
proof (induction names arbitrary: s)
  case Nil
  then show ?case by simp
next
  case (Cons name names)
  obtain r1 s1 where step: "check_resource sec chk name s = (r1, s1)"
    by (cases "check_resource sec chk name s")
  then have f1: "config_file s1 = config_file s" by (rule check_resource_file)
  show ?case
  proof (cases r1)
    case (Inl e)
    with Cons.prems step f1 show ?thesis by simp
  next
    case (Inr u)
    with Cons.prems step have "prune_loop sec chk names s1 = (r, s')" by simp
    then have "config_file s' = config_file s1" by (rule Cons.IH)
    with f1 show ?thesis by simp
  qed
qed

lemma prune_section_file:
  "prune_section sec chk s = (r, s') \<Longrightarrow> config_file s' = config_file s"
  by (auto simp: prune_section_def split: sum.splits option.splits dest: prune_loop_file)

lemma run_steps_file:
  "run_steps steps s = (r, s') \<Longrightarrow> config_file s' = config_file s"
proof (induction steps arbitrary: s)
  case Nil
  then show ?case by simp
next
  case (Cons step steps)
  obtain sec chk where step: "step = (sec, chk)" by (cases step)
  obtain r1 s1 where s1: "prune_section sec chk s = (r1, s1)"
    by (cases "prune_section sec chk s")
  then have f1: "config_file s1 = config_file s" by (rule prune_section_file)
  show ?case
  proof (cases r1)
    case (Inl e)
    with Cons.prems step s1 f1 show ?thesis by simp
  next
    case (Inr u)
    with Cons.prems step s1 have "run_steps steps s1 = (r, s')" by simp
    then have "config_file s' = config_file s1" by (rule Cons.IH)
    with f1 show ?thesis by simp
  qed
qed

lemma prune_keeps_file: "config_file (snd (prune a s)) = Some (file_text s)"
proof (cases "file_error s")
  case None
  have "config_file (snd (run_steps (prune_steps a) (loaded_state (snd (verify_sections s)))))
      = config_file (loaded_state (snd (verify_sections s)))"
    by (metis run_steps_file prod.collapse)
  with None show ?thesis
    by (simp add: prune_run_steps config_file_loaded_state)
next
  case (Some e)
  then show ?thesis
    by (simp add: prune_run_steps config_file_loaded_state)
qed

lemma section_approved_bare: "section_approved ''pars''" "section_approved ''jars''"
  by (simp_all add: section_approved_def split_first_def)

section \<open>The claims\<close>

text \<open>
  C3.  The parser holds the option \<open>region = stale-1\<close> of a section \<open>[DEFAULT]\<close> that
  it has read from an earlier config file (\<open>clear\<close> keeps the defaults).  The config
  file now has the section \<open>aws\<close> and no option, and \<open>AWS_DEFAULT_REGION\<close> is
  \<open>us-west-2\<close>.  \<open>get_region\<close> returns \<open>stale-1\<close>, which is neither in the file nor
  in the environment; a process that has read no file before returns \<open>us-west-2\<close>.
\<close>

theorem get_region_returns_stale_default:
  "fst (verify_sections (with_file earlier_file)) = Inr ()
   \<and> parse_ini (file_text (stale_state (Some (text_lines [''[aws]''])) (Some ''us-west-2'')))
       = (None, \<lparr>defaults_dict = [], sections_dict = [(''aws'', [])]\<rparr>)
   \<and> AWS_DEFAULT_REGION (stale_state (Some (text_lines [''[aws]''])) (Some ''us-west-2''))
       = Some ''us-west-2''
   \<and> fst (get_region (stale_state (Some (text_lines [''[aws]''])) (Some ''us-west-2'')))
       = Inr ''stale-1''
   \<and> fst (get_region ((stale_state (Some (text_lines [''[aws]''])) (Some ''us-west-2''))
                        \<lparr>CONFIG := empty_parser\<rparr>))
       = Inr ''us-west-2''"
  by code_simp

text \<open>
  C4.  In the same process the config file has the section \<open>aws\<close> with the option
  \<open>output\<close> and no \<open>region\<close>; \<open>AWS_DEFAULT_REGION\<close> is unset and there is no AWS
  config file.  \<open>get_region\<close> returns \<open>stale-1\<close> and writes nothing: the file is the
  one before, without a \<open>region\<close>; a process that has read no file before returns
  \<open>us-east-1\<close> from it and writes that.
\<close>

theorem get_region_writes_nothing_back:
  "fst (get_region (stale_state (Some (text_lines [''[aws]'', ''output = json'', ''''])) None))
     = Inr ''stale-1''
   \<and> config_file (snd (get_region
         (stale_state (Some (text_lines [''[aws]'', ''output = json'', ''''])) None)))
     = Some (text_lines [''[aws]'', ''output = json'', ''''])
   \<and> parse_ini (text_lines [''[aws]'', ''output = json'', ''''])
     = (None, \<lparr>defaults_dict = [], sections_dict = [(''aws'', [(''output'', ''json'')])]\<rparr>)
   \<and> get_region ((snd (get_region
         (stale_state (Some (text_lines [''[aws]'', ''output = json'', ''''])) None)))
            \<lparr>CONFIG := empty_parser\<rparr>)
     = (Inr ''us-east-1'',
        fresh_state
          \<lparr>CONFIG := \<lparr>defaults_dict = [],
              sections_dict = [(''aws'', [(''output'', ''json''), (''region'', ''us-east-1'')])]\<rparr>,
           config_file :=
             Some (text_lines [''[aws]'', ''output = json'', ''region = us-east-1'', ''''])\<rparr>)"
  by code_simp

text \<open>
  C5.  \<open>set_region\<close> with a region that is not in the list of \<open>describe_regions\<close>
  (here \<open>mars-1\<close>) fails before anything is read or written: the state is the one
  before the call.  The exception that reaches the caller is the \<open>KeyError\<close> of
  \<open>str.format\<close>, raised while the message of the \<open>ValueError\<close> is built, and not the
  \<open>ValueError\<close>.
\<close>

theorem set_region_invalid_raises_KeyError:
  "set_region (a\<lparr>describe_regions := Inr [''us-east-1'', ''eu-west-1'']\<rparr>) ''mars-1'' s
     = (Inl (KeyError ''regions''), s)"
  by (simp add: set_region_def format_region_message_def)

text \<open>
  C6.  \<open>verify_sections\<close> on a file with the sections \<open>roles\<close> and \<open>bogus\<close>: the
  parser is left with \<open>roles\<close> only, and the file still holds both sections, for a
  parser that reads it again.
\<close>

theorem verify_sections_not_written:
  "fst (verify_sections (with_file [''[roles]'', '''', ''[bogus]'', ''x = y'', ''''])) = Inr ()
   \<and> sections (CONFIG (snd (verify_sections
         (with_file [''[roles]'', '''', ''[bogus]'', ''x = y'', ''''])))) = [''roles'']
   \<and> config_file (snd (verify_sections
         (with_file [''[roles]'', '''', ''[bogus]'', ''x = y'', ''''])))
     = Some (text_lines [''[roles]'', '''', ''[bogus]'', ''x = y'', ''''])
   \<and> parse_ini (text_lines [''[roles]'', '''', ''[bogus]'', ''x = y'', ''''])
     = (None, \<lparr>defaults_dict = [],
               sections_dict = [(''roles'', []), (''bogus'', [(''x'', ''y'')])]\<rparr>)"
  by code_simp

text \<open>
  C7.  \<open>prune\<close> on a file whose section \<open>roles\<close> has the two entries \<open>good-role\<close>,
  which exists, and \<open>gone-role\<close>, which does not: \<open>prune\<close> returns, the parser is left
  with \<open>good-role\<close> only in \<open>roles\<close>, and the file still holds both entries, for a
  parser that reads it again.
\<close>

theorem prune_not_written:
  "fst (prune example_aws (with_file (tracked_file two_roles []))) = Inr ()
   \<and> map_of (sections_dict (CONFIG (snd (prune example_aws (with_file (tracked_file two_roles []))))))
        ''roles'' = Some [(''good-role'', ''arn1'')]
   \<and> config_file (snd (prune example_aws (with_file (tracked_file two_roles []))))
     = Some (text_lines (tracked_file two_roles []))
   \<and> fst (parse_ini (text_lines (tracked_file two_roles []))) = None
   \<and> map_of (sections_dict (snd (parse_ini (text_lines (tracked_file two_roles []))))) ''roles''
     = Some [(''good-role'', ''arn1''), (''gone-role'', ''arn2'')]"
  by code_simp

text \<open>
  C8.  \<open>prune\<close> on a file whose section \<open>roles\<close> is as before and whose section \<open>vpc\<close>
  has \<open>vpc-1\<close>, which does not exist, \<open>vpc-2\<close>, whose lookup raises another exception,
  and \<open>vpc-3\<close>.  \<open>prune\<close> raises that exception, and the lookup of \<open>vpc-3\<close> is not
  sent.  The parser has lost \<open>gone-role\<close> and \<open>vpc-1\<close>; the file has lost nothing:
  a parser that reads it again finds \<open>roles\<close> and \<open>vpc\<close> as they were before the
  call.
\<close>

theorem prune_failure_not_written:
  "fst (prune example_aws (with_file (tracked_file two_roles three_vpcs)))
     = Inl (ClientError ''AccessDenied'')
   \<and> requests (snd (prune example_aws (with_file (tracked_file two_roles three_vpcs))))
     = [(''IamRole'', ''good-role''), (''IamRole'', ''gone-role''),
        (''Vpc'', ''vpc-1''), (''Vpc'', ''vpc-2'')]
   \<and> map_of (sections_dict (CONFIG (snd (prune example_aws
         (with_file (tracked_file two_roles three_vpcs)))))) ''roles''
     = Some [(''good-role'', ''arn1'')]
   \<and> map_of (sections_dict (CONFIG (snd (prune example_aws
         (with_file (tracked_file two_roles three_vpcs)))))) ''vpc''
     = Some [(''vpc-2'', ''b''), (''vpc-3'', ''c'')]
   \<and> config_file (snd (prune example_aws (with_file (tracked_file two_roles three_vpcs))))
     = Some (text_lines (tracked_file two_roles three_vpcs))
   \<and> fst (parse_ini (text_lines (tracked_file two_roles three_vpcs))) = None
   \<and> map_of (sections_dict (snd (parse_ini (text_lines (tracked_file two_roles three_vpcs)))))
        ''roles''
     = Some [(''good-role'', ''arn1''), (''gone-role'', ''arn2'')]
   \<and> map_of (sections_dict (snd (parse_ini (text_lines (tracked_file two_roles three_vpcs)))))
        ''vpc''
     = Some [(''vpc-1'', ''a''), (''vpc-2'', ''b''), (''vpc-3'', ''c'')]"
  by code_simp

text \<open>
  C9.  \<open>verify_sections\<close> is idempotent: a second run returns or raises as the first,
  and leaves the parser with the same sections, with the same content, and the file as
  it was; and when \<open>verify_sections\<close> has returned, its loop, run on the parser that
  it has left, changes nothing.
\<close>

theorem verify_sections_idempotent:
  "fst (verify_sections (snd (verify_sections s))) = fst (verify_sections s)
   \<and> sections_dict (CONFIG (snd (verify_sections (snd (verify_sections s)))))
     = sections_dict (CONFIG (snd (verify_sections s)))
   \<and> config_file (snd (verify_sections (snd (verify_sections s))))
     = config_file (snd (verify_sections s))
   \<and> (fst (verify_sections s) = Inr () \<longrightarrow>
        verify_loop (sections (CONFIG (snd (verify_sections s)))) (CONFIG (snd (verify_sections s)))
          = CONFIG (snd (verify_sections s)))"
proof (intro conjI impI)
  show "fst (verify_sections (snd (verify_sections s))) = fst (verify_sections s)"
    by (simp add: fst_verify_sections)
  show "sections_dict (CONFIG (snd (verify_sections (snd (verify_sections s)))))
     = sections_dict (CONFIG (snd (verify_sections s)))"
    by (simp add: sections_dict_verify_sections split: option.splits)
  show "config_file (snd (verify_sections (snd (verify_sections s))))
     = config_file (snd (verify_sections s))"
    by (simp add: config_file_verify_sections)
  assume "fst (verify_sections s) = Inr ()"
  then have "file_error s = None"
    by (simp add: fst_verify_sections split: option.splits)
  then show "verify_loop (sections (CONFIG (snd (verify_sections s)))) (CONFIG (snd (verify_sections s)))
      = CONFIG (snd (verify_sections s))"
    by (simp add: verify_sections_eq verify_loop_sections)
qed

theorem verify_sections_idempotent_witness:
  "fst (verify_sections (with_file [''[roles]'', '''', ''[bogus]'', ''x = y'', ''''])) = Inr ()
   \<and> verify_loop [''roles''] \<lparr>defaults_dict = [], sections_dict = [(''roles'', [])]\<rparr>
       = \<lparr>defaults_dict = [], sections_dict = [(''roles'', [])]\<rparr>"
proof -
  let ?s = "with_file [''[roles]'', '''', ''[bogus]'', ''x = y'', '''']"
  have ok: "fst (verify_sections ?s) = Inr ()"
    by code_simp
  have c: "CONFIG (snd (verify_sections ?s))
      = \<lparr>defaults_dict = [], sections_dict = [(''roles'', [])]\<rparr>"
    by code_simp
  have n: "sections \<lparr>defaults_dict = [], sections_dict = [(''roles'', [])]\<rparr> = [''roles'']"
    by code_simp
  show ?thesis
    using verify_sections_idempotent [of ?s, THEN conjunct2, THEN conjunct2, THEN conjunct2,
        rule_format, OF ok]
    by (simp only: c n ok simp_thms)
qed

text \<open>
  C10.  Let the config file be read without an error.  If the loops of \<open>prune\<close>
  before the one of section \<open>sec\<close> run to their ends and the file has no section
  \<open>sec\<close>, then \<open>prune\<close> raises \<open>NoSectionError\<close> for \<open>sec\<close>, the only lookups sent are
  those of the earlier loops, and the sections of the later loops are as they were
  read.  And \<open>prune\<close> returns only if the file is read without an error and has all
  eight sections.
\<close>

theorem prune_requires_sections:
  "(file_error s = None
      \<and> prune_steps a = before @ (sec, chk) # after
      \<and> list_all (section_passes (loaded s)) before
      \<and> sec \<notin> set (sections (file_content s))
      \<longrightarrow> fst (prune a s) = Inl (NoSectionError sec)
          \<and> requests (snd (prune a s))
              = requests s @ concat (map (step_requests (loaded s)) before)
          \<and> list_all (\<lambda>st. map_of (sections_dict (CONFIG (snd (prune a s)))) (fst st)
                             = map_of (sections_dict (loaded s)) (fst st))
              after)
   \<and> (fst (prune a s) = Inr ()
      \<longrightarrow> file_error s = None
          \<and> list_all (\<lambda>st. fst st \<in> set (sections (file_content s))) (prune_steps a))"
proof (intro conjI impI)
  assume a: "file_error s = None
      \<and> prune_steps a = before @ (sec, chk) # after
      \<and> list_all (section_passes (loaded s)) before
      \<and> sec \<notin> set (sections (file_content s))"
  let ?s0 = "loaded_state (snd (verify_sections s))"
  let ?s1 = "fold after_step before ?s0"
  have p0: "CONFIG ?s0 = loaded s" by (rule CONFIG_before_loops)
  have absent: "\<not> has_section (loaded s) sec"
    using a by (simp add: has_section_loaded)
  have "proper_names (before @ (sec, chk) # after)"
    using proper_prune_steps [of a] a by simp
  note pn = proper_names_split [OF this, simplified]
  have run1: "run_steps before ?s0 = (Inr (), ?s1)"
    using pn(1) a run_steps_passes [of before ?s0] by (simp add: p0)
  have agree: "agree_on (CONFIG ?s1) (loaded s) sec"
    using fold_after_step_other [OF pn(4), of ?s0] by (simp add: p0)
  then have "\<not> has_section (CONFIG ?s1) sec"
    using absent by (simp add: agree_on_has_section)
  then have run2: "prune_section sec chk ?s1 = (Inl (NoSectionError sec), ?s1)"
    by (rule prune_section_absent)
  have result: "prune a s = (Inl (NoSectionError sec), ?s1)"
    using run1 run2 a by (simp add: prune_run_steps run_steps_append)
  show "fst (prune a s) = Inl (NoSectionError sec)"
    by (simp add: result)
  show "requests (snd (prune a s)) = requests s @ concat (map (step_requests (loaded s)) before)"
    using pn(1) a fold_after_step_requests [of before ?s0]
    by (simp add: result p0 proper_names_def requests_loaded_state requests_verify_sections)
  have "map_of (sections_dict (CONFIG ?s1)) (fst st) = map_of (sections_dict (loaded s)) (fst st)"
    if "st \<in> set after" for st
  proof -
    have "fst st \<notin> fst ` set before"
      using that pn(6) by (metis disjoint_iff image_eqI)
    then have "agree_on (CONFIG ?s1) (CONFIG ?s0) (fst st)"
      by (rule fold_after_step_other)
    then show ?thesis by (simp add: agree_on_def p0)
  qed
  then show "list_all (\<lambda>st. map_of (sections_dict (CONFIG (snd (prune a s)))) (fst st)
                             = map_of (sections_dict (loaded s)) (fst st)) after"
    by (simp add: result list_all_iff)
next
  assume r: "fst (prune a s) = Inr ()"
  then show ok: "file_error s = None"
    by (cases "file_error s") (simp_all add: prune_run_steps)
  let ?s0 = "loaded_state (snd (verify_sections s))"
  have "run_steps (prune_steps a) ?s0 = (Inr (), snd (prune a s))"
    using r ok by (simp add: prune_run_steps) (metis prod.collapse)
  then have "list_all (\<lambda>st. has_section (CONFIG ?s0) (fst st)) (prune_steps a)"
    using proper_prune_steps by (intro run_steps_returns)
  then show "list_all (\<lambda>st. fst st \<in> set (sections (file_content s))) (prune_steps a)"
    by (simp add: CONFIG_before_loops has_section_loaded)
qed

theorem prune_requires_sections_witness:
  "fst (prune example_aws fresh_state) = Inl (NoSectionError ''roles'')
   \<and> requests (snd (prune example_aws fresh_state)) = []
   \<and> fst (prune example_aws (with_file [''[roles]'', ''good-role = arn1'', ''gone-role = arn2'',
        '''', ''[security-groups]'', '''']))
       = Inl (NoSectionError ''vpc'')
   \<and> requests (snd (prune example_aws (with_file [''[roles]'', ''good-role = arn1'',
        ''gone-role = arn2'', '''', ''[security-groups]'', ''''])))
       = [(''IamRole'', ''good-role''), (''IamRole'', ''gone-role'')]
   \<and> ''jobs'' \<in> set (sections (file_content (with_file (tracked_file two_roles []))))"
proof -
  let ?s = "with_file [''[roles]'', ''good-role = arn1'', ''gone-role = arn2'',
        '''', ''[security-groups]'', '''']"
  let ?roles = "(''roles'', Some (''IamRole'', IamRole example_aws))"
  let ?vpc = "(''vpc'', Some (''Vpc'', Vpc example_aws))"
  let ?later =
    "[(''security-groups'', Some (''SecurityGroup'', SecurityGroup example_aws)),
      (''docker-repos'', None),
      (''job-definitions'', Some (''IamRole'', IamRole example_aws)),
      (''compute-environments'', Some (''IamRole'', IamRole example_aws)),
      (''job-queues'', Some (''IamRole'', IamRole example_aws)),
      (''jobs'', Some (''IamRole(job_id)'', IamRole_job_id example_aws))]"
  note absent = prune_requires_sections [THEN conjunct1, rule_format]
  note returns = prune_requires_sections [THEN conjunct2, rule_format]
  have e0: "file_error fresh_state = None" and e1: "file_error ?s = None"
    by code_simp+
  have f0: "sections (file_content fresh_state) = []"
    and f1: "sections (file_content ?s) = [''roles'', ''security-groups'']"
    by code_simp+
  have l0: "loaded fresh_state = empty_parser"
    by code_simp
  have l1: "loaded ?s
      = \<lparr>defaults_dict = [],
         sections_dict = [(''roles'', [(''good-role'', ''arn1''), (''gone-role'', ''arn2'')]),
                          (''security-groups'', [])]\<rparr>"
    by code_simp
  have h0: "file_error fresh_state = None
      \<and> prune_steps example_aws = [] @ ?roles # ?vpc # ?later
      \<and> list_all (section_passes (loaded fresh_state)) []
      \<and> ''roles'' \<notin> set (sections (file_content fresh_state))"
    unfolding l0 f0 by (simp add: prune_steps_def e0)
  have h1: "file_error ?s = None
      \<and> prune_steps example_aws = [?roles] @ ?vpc # ?later
      \<and> list_all (section_passes (loaded ?s)) [?roles]
      \<and> ''vpc'' \<notin> set (sections (file_content ?s))"
    unfolding l1 f1
    by (simp add: e1 prune_steps_def section_passes_def has_section_def keys_def
        step_names_def options_def dict_update_def found_or_gone_def example_aws_def)
  have reqs: "step_requests (loaded ?s) ?roles
      = [(''IamRole'', ''good-role''), (''IamRole'', ''gone-role'')]"
    unfolding l1
    by (simp add: step_requests_def step_names_def options_def dict_update_def keys_def)
  have r0: "requests fresh_state = []" and r1: "requests ?s = []"
    by (simp_all add: fresh_state_def with_file_def)
  have ok: "fst (prune example_aws (with_file (tracked_file two_roles []))) = Inr ()"
    by code_simp
  show ?thesis
    using absent [OF h0] absent [OF h1] returns [OF ok]
    by (simp add: reqs r0 r1 prune_steps_def)
qed

end
